theory Spec2Isabelle
  imports Main
begin

section \<open>The alarm clock of \<^verbatim>\<open>Alram/app.py\<close>\<close>

text \<open>
  The program is a Tk window with a clock label, an entry for the alarm time and three
  buttons. Its logic lives in four callbacks that read and write the module's globals
  \<^verbatim>\<open>alarm_time\<close>, \<^verbatim>\<open>alarm_triggered\<close>, \<^verbatim>\<open>alarm_thread\<close> and a few widgets. The
  callbacks become functions from the state before to the state after; every reading of
  the wall clock, the text of the entry, the presence of the sound file and the outcome
  of \<^verbatim>\<open>playsound\<close> are arguments. Output of \<^verbatim>\<open>print\<close> and the text of the clock
  label, which \<^verbatim>\<open>update_time\<close> writes before it calls \<^verbatim>\<open>check_alarm\<close>, are left out.
\<close>

subsection \<open>Dates and times of the \<^verbatim>\<open>datetime\<close> module\<close>

text \<open>
  A calendar date is held as its proleptic Gregorian ordinal (\<^verbatim>\<open>date.toordinal()\<close>):
  day 1 is 0001-01-01 and \<open>MAXORDINAL\<close> is 9999-12-31. The program never looks at year,
  month or day; it compares dates and adds days, which the ordinal does as the calendar
  does.
\<close>

record time =
  t_hour :: nat
  t_minute :: nat
  t_second :: nat
  t_microsecond :: nat

record datetime =
  ordinal :: nat
  hour :: nat
  minute :: nat
  second :: nat
  microsecond :: nat

record timedelta =
  days :: nat
  seconds :: nat
  microseconds :: nat

datatype exn = ValueError | OverflowError

definition MAXORDINAL :: nat where
  "MAXORDINAL = 3652059"

text \<open>\<^verbatim>\<open>timedelta(days=n)\<close> and \<^verbatim>\<open>timedelta(minutes=n)\<close>, normalised as the constructor does.\<close>

definition timedelta_days :: "nat \<Rightarrow> timedelta" where
  "timedelta_days n = \<lparr>days = n, seconds = 0, microseconds = 0\<rparr>"

definition timedelta_minutes :: "nat \<Rightarrow> timedelta" where
  "timedelta_minutes n =
     \<lparr>days = (n * 60) div 86400, seconds = (n * 60) mod 86400, microseconds = 0\<rparr>"

text \<open>\<^verbatim>\<open>datetime.combine(date, time)\<close>.\<close>

definition combine :: "nat \<Rightarrow> time \<Rightarrow> datetime" where
  "combine d t =
     \<lparr>ordinal = d, hour = t_hour t, minute = t_minute t, second = t_second t,
      microsecond = t_microsecond t\<rparr>"

text \<open>
  Comparison of two naive datetimes is the comparison of the tuples
  (date, hour, minute, second, microsecond), component by component.
\<close>

definition datetime_lt :: "datetime \<Rightarrow> datetime \<Rightarrow> bool" where
  "datetime_lt a b =
     (if ordinal a \<noteq> ordinal b then ordinal a < ordinal b
      else if hour a \<noteq> hour b then hour a < hour b
      else if minute a \<noteq> minute b then minute a < minute b
      else if second a \<noteq> second b then second a < second b
      else microsecond a < microsecond b)"

definition datetime_le :: "datetime \<Rightarrow> datetime \<Rightarrow> bool" where
  "datetime_le a b = (\<not> datetime_lt b a)"

text \<open>
  \<^verbatim>\<open>datetime + timedelta\<close>: both sides are added up as days, seconds and microseconds,
  carries are propagated, and a day outside 1..\<open>MAXORDINAL\<close> raises
  \<^verbatim>\<open>OverflowError\<close>.
\<close>

definition datetime_add :: "datetime \<Rightarrow> timedelta \<Rightarrow> exn + datetime" where
  "datetime_add dt td =
     (let us = microsecond dt + microseconds td;
          s = hour dt * 3600 + minute dt * 60 + second dt + seconds td + us div 1000000;
          d = ordinal dt + days td + s div 86400;
          r = s mod 86400
      in if 0 < d \<and> d \<le> MAXORDINAL
         then Inr \<lparr>ordinal = d, hour = r div 3600, minute = (r mod 3600) div 60,
                   second = r mod 60, microsecond = us mod 1000000\<rparr>
         else Inl OverflowError)"

text \<open>The instant of a datetime, in microseconds since the start of day 0.\<close>

definition to_micros :: "datetime \<Rightarrow> nat" where
  "to_micros dt =
     (ordinal dt * 86400 + hour dt * 3600 + minute dt * 60 + second dt) * 1000000
       + microsecond dt"

definition valid_datetime :: "datetime \<Rightarrow> bool" where
  "valid_datetime dt =
     (0 < ordinal dt \<and> ordinal dt \<le> MAXORDINAL \<and> hour dt < 24 \<and> minute dt < 60
      \<and> second dt < 60 \<and> microsecond dt < 1000000)"

subsection \<open>\<^verbatim>\<open>datetime.strptime(s, "%H:%M:%S").time()\<close>\<close>

text \<open>
  \<^verbatim>\<open>strptime\<close> turns the format into the regular expression
  \<^verbatim>\<open>(?P<H>2[0-3]|[0-1]\d|\d):(?P<M>[0-5]\d|\d):(?P<S>6[0-1]|[0-5]\d|\d)\<close>,
  matches it at the start of the input, and raises \<^verbatim>\<open>ValueError\<close> when there is no
  match or when input remains after the match. The matcher tries the alternatives of a
  group from left to right and backtracks, so each group is modelled by the list of its
  possible matches in that order (value read, rest of the input), and the match of the
  whole expression is the first combination that succeeds. The input is a string of
  8-bit characters, among which \<^verbatim>\<open>\d\<close> matches exactly 0 to 9.
\<close>

definition is_digit :: "char \<Rightarrow> bool" where
  "is_digit c = (48 \<le> (of_char c :: nat) \<and> (of_char c :: nat) \<le> 57)"

definition digit_val :: "char \<Rightarrow> nat" where
  "digit_val c = of_char c - 48"

definition in_range :: "char \<Rightarrow> char \<Rightarrow> char \<Rightarrow> bool" where
  "in_range lo hi c = ((of_char lo :: nat) \<le> of_char c \<and> (of_char c :: nat) \<le> of_char hi)"

text \<open>Two characters, the first in \<open>lo1..hi1\<close> and the second in \<open>lo2..hi2\<close>.\<close>

definition two_chars :: "char \<Rightarrow> char \<Rightarrow> char \<Rightarrow> char \<Rightarrow> string \<Rightarrow> (nat \<times> string) list" where
  "two_chars lo1 hi1 lo2 hi2 s =
     (case s of
        a # b # r \<Rightarrow>
          (if in_range lo1 hi1 a \<and> in_range lo2 hi2 b
           then [(10 * digit_val a + digit_val b, r)] else [])
      | _ \<Rightarrow> [])"

definition one_digit :: "string \<Rightarrow> (nat \<times> string) list" where
  "one_digit s = (case s of a # r \<Rightarrow> (if is_digit a then [(digit_val a, r)] else []) | [] \<Rightarrow> [])"

definition group_H :: "string \<Rightarrow> (nat \<times> string) list" where
  "group_H s =
     two_chars (CHR ''2'') (CHR ''2'') (CHR ''0'') (CHR ''3'') s
     @ two_chars (CHR ''0'') (CHR ''1'') (CHR ''0'') (CHR ''9'') s
     @ one_digit s"

definition group_M :: "string \<Rightarrow> (nat \<times> string) list" where
  "group_M s = two_chars (CHR ''0'') (CHR ''5'') (CHR ''0'') (CHR ''9'') s @ one_digit s"

definition group_S :: "string \<Rightarrow> (nat \<times> string) list" where
  "group_S s =
     two_chars (CHR ''6'') (CHR ''6'') (CHR ''0'') (CHR ''1'') s
     @ two_chars (CHR ''0'') (CHR ''5'') (CHR ''0'') (CHR ''9'') s
     @ one_digit s"

definition colon :: "string \<Rightarrow> string list" where
  "colon s = (case s of c # r \<Rightarrow> (if c = CHR '':'' then [r] else []) | [] \<Rightarrow> [])"

text \<open>All matches of the expression at the start of the input, in the matcher's order.\<close>

definition format_matches :: "string \<Rightarrow> (nat \<times> nat \<times> nat \<times> string) list" where
  "format_matches s =
     concat (map (\<lambda>(h, r1).
       concat (map (\<lambda>r2.
         concat (map (\<lambda>(m, r3).
           concat (map (\<lambda>r4.
             map (\<lambda>(sec, r5). (h, m, sec, r5)) (group_S r4))
           (colon r3)))
         (group_M r2)))
       (colon r1)))
     (group_H s))"

text \<open>
  \<^verbatim>\<open>strptime\<close> followed by \<^verbatim>\<open>.time()\<close>: the first match must consume the whole input,
  and the \<^verbatim>\<open>datetime\<close> constructor refuses a second of 60 or 61 with \<^verbatim>\<open>ValueError\<close>.
\<close>

definition strptime :: "string \<Rightarrow> exn + time" where
  "strptime s =
     (case format_matches s of
        [] \<Rightarrow> Inl ValueError
      | (h, m, sec, rest) # _ \<Rightarrow>
          (if rest \<noteq> [] then Inl ValueError
           else if 59 < sec then Inl ValueError
           else Inr \<lparr>t_hour = h, t_minute = m, t_second = sec, t_microsecond = 0\<rparr>))"

text \<open>\<^verbatim>\<open>strftime('%H:%M:%S')\<close> of a datetime: each field as two decimal digits.\<close>

definition digit_char :: "nat \<Rightarrow> char" where
  "digit_char n = ''0123456789'' ! (n mod 10)"

definition two_digits :: "nat \<Rightarrow> string" where
  "two_digits n = [digit_char (n div 10), digit_char n]"

definition strftime_HMS :: "datetime \<Rightarrow> string" where
  "strftime_HMS dt =
     two_digits (hour dt) @ '':'' @ two_digits (minute dt) @ '':'' @ two_digits (second dt)"

text \<open>\<^verbatim>\<open>str(n)\<close> of a non-negative integer.\<close>

fun str_nat :: "nat \<Rightarrow> string" where
  "str_nat n = (if n < 10 then [digit_char n] else str_nat (n div 10) @ [digit_char n])"

declare str_nat.simps [simp del]

subsection \<open>The state of the application\<close>

text \<open>
  The globals, and what the user can see of the widgets: the text of the status label,
  whether the snooze and the stop button are packed, and the message boxes shown so far
  (title and text, oldest first). \<open>threads\<close> lists every playback thread started so
  far, oldest first, each with the target the alarm had when it was started;
  \<open>alarm_thread\<close> is the position of the latest one. \<open>callback_errors\<close> collects the
  exceptions no handler caught: Tk reports them and goes on with its main loop.
\<close>

record app =
  alarm_time :: "datetime option"
  alarm_triggered :: bool
  alarm_thread :: "nat option"
  status_label :: string
  snooze_button :: bool
  stop_button :: bool
  message_boxes :: "(string \<times> string) list"
  threads :: "datetime list"
  callback_errors :: "exn list"

definition snooze_minutes :: nat where
  "snooze_minutes = 5"

definition alarm_file :: string where
  "alarm_file = ''mixkit-alert-alarm-1005.wav''"

text \<open>The state when the main loop starts: no alarm, both buttons hidden.\<close>

definition initial :: app where
  "initial =
     \<lparr>alarm_time = None, alarm_triggered = False, alarm_thread = None, status_label = [],
      snooze_button = False, stop_button = False, message_boxes = [], threads = [],
      callback_errors = []\<rparr>"

definition show_message_box :: "string \<Rightarrow> string \<Rightarrow> app \<Rightarrow> app" where
  "show_message_box title message st =
     st\<lparr>message_boxes := message_boxes st @ [(title, message)]\<rparr>"

subsection \<open>\<^verbatim>\<open>set_alarm\<close>\<close>

text \<open>The two \<^verbatim>\<open>except\<close> clauses: \<^verbatim>\<open>ValueError\<close> first, any other exception after it.\<close>

definition set_alarm_except :: "exn \<Rightarrow> app \<Rightarrow> app" where
  "set_alarm_except e st =
     (case e of
        ValueError \<Rightarrow>
          (show_message_box ''Input Error''
             ''Invalid time format! Please use HH:MM:SS (e.g., 14:30:00).'' st)
            \<lparr>status_label := ''Invalid format! Use HH:MM:SS''\<rparr>
      | OverflowError \<Rightarrow>
          (show_message_box ''Error''
             ''An unexpected error occurred: date value out of range'' st)
            \<lparr>status_label := ''Error setting alarm: date value out of range''\<rparr>)"

text \<open>The statements after the \<^verbatim>\<open>if\<close>/\<^verbatim>\<open>else\<close> that stores the target.\<close>

definition set_alarm_finish :: "app \<Rightarrow> app" where
  "set_alarm_finish st =
     st\<lparr>alarm_triggered := False, snooze_button := False, stop_button := False\<rparr>"

text \<open>
  \<open>alarm_time_str\<close> is the text of the entry; \<open>now1\<close> is the clock read for today's
  date and \<open>now2\<close> the clock read for the comparison.
\<close>

definition set_alarm :: "app \<Rightarrow> string \<Rightarrow> datetime \<Rightarrow> datetime \<Rightarrow> app" where
  "set_alarm st alarm_time_str now1 now2 =
     (if alarm_time_str = ''HH:MM:SS''
      then show_message_box ''Input Error'' ''Please enter a valid alarm time (HH:MM:SS).'' st
      else
        (case strptime alarm_time_str of
           Inl e \<Rightarrow> set_alarm_except e st
         | Inr parsed_time \<Rightarrow>
             (let today = ordinal now1;
                  alarm_datetime_today = combine today parsed_time
              in if datetime_le alarm_datetime_today now2
                 then
                   (case datetime_add alarm_datetime_today (timedelta_days 1) of
                      Inl e \<Rightarrow> set_alarm_except e st
                    | Inr t \<Rightarrow>
                        set_alarm_finish
                          (st\<lparr>alarm_time := Some t,
                              status_label := ''Alarm set for tomorrow at '' @ strftime_HMS t\<rparr>))
                 else
                   set_alarm_finish
                     (st\<lparr>alarm_time := Some alarm_datetime_today,
                         status_label :=
                           ''Alarm set for today at '' @ strftime_HMS alarm_datetime_today\<rparr>))))"

subsection \<open>\<^verbatim>\<open>check_alarm\<close>, run by every tick of the clock\<close>

definition check_alarm :: "app \<Rightarrow> datetime \<Rightarrow> app" where
  "check_alarm st now =
     (case alarm_time st of
        None \<Rightarrow> st
      | Some target \<Rightarrow>
          (if \<not> alarm_triggered st \<and> hour now = hour target \<and> minute now = minute target
           then
             (if datetime_le target now
              then st\<lparr>alarm_triggered := True,
                      status_label := ''ALARM! ALARM! ALARM!'',
                      alarm_thread := Some (length (threads st)),
                      threads := threads st @ [target],
                      snooze_button := True,
                      stop_button := True\<rparr>
              else st)
           else if alarm_triggered st \<and> hour now = hour target \<and> minute target < minute now
           then
             (if alarm_time st \<noteq> None
              then st\<lparr>status_label := [], snooze_button := False, stop_button := False,
                      alarm_time := None, alarm_triggered := False\<rparr>
              else st)
           else st))"

subsection \<open>\<^verbatim>\<open>play_alarm_sound\<close>, the body of a playback thread\<close>

text \<open>
  \<open>file_exists\<close> is the answer of \<^verbatim>\<open>os.path.exists\<close>; \<open>raised\<close> is \<open>None\<close> when
  \<^verbatim>\<open>playsound\<close> returns and the text of the exception when it raises one.
\<close>

definition apostrophe :: string where
  "apostrophe = [CHR 0x27]"

definition play_alarm_sound :: "app \<Rightarrow> bool \<Rightarrow> string option \<Rightarrow> app" where
  "play_alarm_sound st file_exists raised =
     (if \<not> file_exists
      then show_message_box ''Error''
             (''Alarm sound file '' @ apostrophe @ alarm_file @ apostrophe
                @ '' not found. Please ensure it'' @ apostrophe
                @ ''s in the same directory.'') st
      else
        (case raised of
           None \<Rightarrow> st
         | Some e \<Rightarrow>
             (show_message_box ''Audio Error''
                (''Could not play alarm sound: '' @ e @ [CHR 0x0A]
                   @ ''Ensure '' @ apostrophe @ ''playsound'' @ apostrophe
                   @ '' is installed and the file is valid.'') st)
               \<lparr>status_label := ''Audio Error: '' @ e\<rparr>))"

subsection \<open>\<^verbatim>\<open>stop_alarm\<close> and \<^verbatim>\<open>snooze\<close>\<close>

definition stop_alarm :: "app \<Rightarrow> app" where
  "stop_alarm st =
     (show_message_box ''Alarm Stopped''
        ''Alarm will finish playing its current sound. Set a new alarm or snooze.'' st)
       \<lparr>snooze_button := False, stop_button := False, alarm_triggered := False,
        alarm_time := None, status_label := ''Alarm stopped. Set a new alarm.''\<rparr>"

text \<open>
  The buttons are hidden before the new target is computed; when the addition raises,
  nothing catches it and the globals and the status keep their values.
\<close>

definition snooze :: "app \<Rightarrow> datetime \<Rightarrow> app" where
  "snooze st now =
     (let st1 = st\<lparr>snooze_button := False, stop_button := False\<rparr>
      in case datetime_add now (timedelta_minutes snooze_minutes) of
           Inl e \<Rightarrow> st1\<lparr>callback_errors := callback_errors st1 @ [e]\<rparr>
         | Inr t \<Rightarrow>
             st1\<lparr>alarm_time := Some t, alarm_triggered := False,
                 status_label :=
                   ''Snoozed for '' @ str_nat snooze_minutes @ '' minutes. Next alarm at ''
                     @ strftime_HMS t\<rparr>)"

text \<open>The three states of the alarm.\<close>

definition idle :: "app \<Rightarrow> bool" where
  "idle st = (alarm_time st = None \<and> \<not> alarm_triggered st)"

definition armed :: "app \<Rightarrow> bool" where
  "armed st = (alarm_time st \<noteq> None \<and> \<not> alarm_triggered st)"

definition ringing :: "app \<Rightarrow> bool" where
  "ringing st = (alarm_time st \<noteq> None \<and> alarm_triggered st)"

subsection \<open>Runs of the program\<close>

text \<open>The clock ticks at each of the given instants, in order.\<close>

fun ticks :: "app \<Rightarrow> datetime list \<Rightarrow> app" where
  "ticks st [] = st"
| "ticks st (now # nows) = ticks (check_alarm st now) nows"

text \<open>
  The states the program can be in: it starts in \<open>initial\<close>, and then the user sets,
  snoozes and stops alarms, the clock ticks and playback threads run, in any order, at any
  reading of the clock and with any text in the entry.
\<close>

inductive reachable :: "app \<Rightarrow> bool" where
  start: "reachable initial"
| set: "reachable st \<Longrightarrow> reachable (set_alarm st alarm_time_str now1 now2)"
| tick: "reachable st \<Longrightarrow> reachable (check_alarm st now)"
| snoozed: "reachable st \<Longrightarrow> reachable (snooze st now)"
| stopped: "reachable st \<Longrightarrow> reachable (stop_alarm st)"
| played: "reachable st \<Longrightarrow> reachable (play_alarm_sound st file_exists raised)"

subsection \<open>Some instants and states\<close>

text \<open>Day 740000 is a day in the year 2027.\<close>

definition now_0900 :: datetime where
  "now_0900 = \<lparr>ordinal = 740000, hour = 9, minute = 0, second = 0, microsecond = 250000\<rparr>"

definition at_1430 :: datetime where
  "at_1430 = \<lparr>ordinal = 740000, hour = 14, minute = 30, second = 0, microsecond = 0\<rparr>"

definition at_1459 :: datetime where
  "at_1459 = \<lparr>ordinal = 740000, hour = 14, minute = 59, second = 0, microsecond = 0\<rparr>"

definition at_1500 :: datetime where
  "at_1500 = \<lparr>ordinal = 740000, hour = 15, minute = 0, second = 0, microsecond = 0\<rparr>"

definition now_2000 :: datetime where
  "now_2000 = \<lparr>ordinal = 740000, hour = 20, minute = 0, second = 0, microsecond = 250000\<rparr>"

definition now_143020 :: datetime where
  "now_143020 = \<lparr>ordinal = 740000, hour = 14, minute = 30, second = 20, microsecond = 125000\<rparr>"

definition now_235830 :: datetime where
  "now_235830 = \<lparr>ordinal = 740000, hour = 23, minute = 58, second = 30, microsecond = 0\<rparr>"

text \<open>An alarm set for 14:30:00 of that day, before and after it has fired.\<close>

definition armed_1430 :: app where
  "armed_1430 = initial\<lparr>alarm_time := Some at_1430, status_label := ''Alarm set for today at 14:30:00''\<rparr>"

definition ringing_1430 :: app where
  "ringing_1430 =
     armed_1430\<lparr>alarm_triggered := True, status_label := ''ALARM! ALARM! ALARM!'',
       alarm_thread := Some 0, threads := [at_1430], snooze_button := True, stop_button := True\<rparr>"

text \<open>An alarm set at 09:00 for 14:59:00 that fires on the tick at 14:59:00.\<close>

definition ringing_1459 :: app where
  "ringing_1459 = check_alarm (set_alarm initial ''14:59:00'' now_0900 now_0900) at_1459"

section \<open>Properties\<close>

subsection \<open>Adding to a datetime\<close>

lemma hms_recompose: "(r::nat) div 3600 * 3600 + (r mod 3600) div 60 * 60 + r mod 60 = r"
proof -
  have "(r mod 3600) div 60 * 60 + (r mod 3600) mod 60 = r mod 3600" by simp
  moreover have "(r mod 3600) mod 60 = r mod 60"
    by (simp add: mod_mod_cancel)
  moreover have "r div 3600 * 3600 + r mod 3600 = r" by simp
  ultimately show ?thesis by linarith
qed

lemma datetime_add_micros:
  assumes "datetime_add dt td = Inr t"
  shows "to_micros t = to_micros dt + (days td * 86400 + seconds td) * 1000000 + microseconds td"
proof -
  define us where "us = microsecond dt + microseconds td"
  define s where "s = hour dt * 3600 + minute dt * 60 + second dt + seconds td + us div 1000000"
  define r where "r = s mod 86400"
  have t: "t = \<lparr>ordinal = ordinal dt + days td + s div 86400, hour = r div 3600,
                 minute = (r mod 3600) div 60, second = r mod 60, microsecond = us mod 1000000\<rparr>"
    using assms unfolding datetime_add_def Let_def us_def s_def r_def
    by (simp split: if_splits)
  have "to_micros t = ((ordinal dt + days td + s div 86400) * 86400
          + (r div 3600 * 3600 + (r mod 3600) div 60 * 60 + r mod 60)) * 1000000 + us mod 1000000"
    unfolding t to_micros_def by (simp add: algebra_simps)
  also have "\<dots> = ((ordinal dt + days td) * 86400 + (s div 86400 * 86400 + r)) * 1000000 + us mod 1000000"
    unfolding hms_recompose by (simp add: algebra_simps)
  also have "s div 86400 * 86400 + r = s" unfolding r_def by simp
  also have "((ordinal dt + days td) * 86400 + s) * 1000000 + us mod 1000000
      = ((ordinal dt + days td) * 86400 + hour dt * 3600 + minute dt * 60 + second dt + seconds td) * 1000000
         + (us div 1000000 * 1000000 + us mod 1000000)"
    unfolding s_def by (simp add: algebra_simps)
  also have "us div 1000000 * 1000000 + us mod 1000000 = us" by simp
  finally show ?thesis unfolding us_def to_micros_def by (simp add: algebra_simps)
qed

lemma datetime_add_valid:
  assumes "datetime_add dt td = Inr t"
  shows "valid_datetime t"
proof -
  define us where "us = microsecond dt + microseconds td"
  define s where "s = hour dt * 3600 + minute dt * 60 + second dt + seconds td + us div 1000000"
  define r where "r = s mod 86400"
  define d where "d = ordinal dt + days td + s div 86400"
  have d: "0 < d \<and> d \<le> MAXORDINAL"
    and t: "t = \<lparr>ordinal = d, hour = r div 3600, minute = (r mod 3600) div 60,
                 second = r mod 60, microsecond = us mod 1000000\<rparr>"
    using assms unfolding datetime_add_def Let_def us_def s_def r_def d_def
    by (simp_all split: if_splits)
  have "r < 24 * 3600" unfolding r_def by simp
  then have h: "r div 3600 < 24" by (rule less_mult_imp_div_less)
  have "r mod 3600 < 60 * 60" by simp
  then have m: "(r mod 3600) div 60 < 60" by (rule less_mult_imp_div_less)
  show ?thesis unfolding valid_datetime_def t using d h m by simp
qed

lemma datetime_add_ok:
  assumes "valid_datetime now" "ordinal now < MAXORDINAL"
  shows "\<exists>t. datetime_add now (timedelta_minutes snooze_minutes) = Inr t"
proof -
  have us: "microsecond now < 1000000" and "hour now * 3600 + minute now * 60 + second now < 86400"
    using assms(1) unfolding valid_datetime_def by auto
  then have "hour now * 3600 + minute now * 60 + second now + 300 < 2 * 86400" by simp
  then have "(hour now * 3600 + minute now * 60 + second now + 300) div 86400 < 2"
    by (rule less_mult_imp_div_less)
  then show ?thesis using assms us
    unfolding datetime_add_def Let_def timedelta_minutes_def snooze_minutes_def valid_datetime_def
    by simp
qed

subsection \<open>Comparing datetimes\<close>

lemma radix_less:
  fixes a c x y B :: nat
  assumes "x < B" and "y < B"
  shows "(a * B + x < c * B + y) = (if a \<noteq> c then a < c else x < y)"
proof (cases a c rule: linorder_cases)
  case less
  then have "Suc a * B \<le> c * B" by (intro mult_le_mono1) simp
  then have "a * B + B \<le> c * B" by simp
  with assms less show ?thesis by simp
next
  case equal
  then show ?thesis by simp
next
  case greater
  then have "Suc c * B \<le> a * B" by (intro mult_le_mono1) simp
  then have "c * B + B \<le> a * B" by simp
  with assms greater show ?thesis by simp
qed

text \<open>
  On valid datetimes the comparison of the fields is the comparison of the instants.
\<close>

lemma datetime_lt_micros:
  assumes "valid_datetime a" and "valid_datetime b"
  shows "datetime_lt a b = (to_micros a < to_micros b)"
proof -
  have va: "hour a < 24" "minute a < 60" "second a < 60" "microsecond a < 1000000"
    and vb: "hour b < 24" "minute b < 60" "second b < 60" "microsecond b < 1000000"
    using assms unfolding valid_datetime_def by simp_all
  have ha: "to_micros a = (((ordinal a * 24 + hour a) * 60 + minute a) * 60 + second a) * 1000000
      + microsecond a"
    and hb: "to_micros b = (((ordinal b * 24 + hour b) * 60 + minute b) * 60 + second b) * 1000000
      + microsecond b"
    unfolding to_micros_def by simp_all
  have 1: "(ordinal a * 24 + hour a < ordinal b * 24 + hour b)
      = (if ordinal a \<noteq> ordinal b then ordinal a < ordinal b else hour a < hour b)"
    using va(1) vb(1) by (rule radix_less)
  have e1: "(ordinal a * 24 + hour a = ordinal b * 24 + hour b)
      = (ordinal a = ordinal b \<and> hour a = hour b)"
    using radix_less [OF va(1) vb(1), of "ordinal a" "ordinal b"]
      radix_less [OF vb(1) va(1), of "ordinal b" "ordinal a"]
    by (auto split: if_splits)
  show ?thesis
    unfolding ha hb radix_less [OF va(4) vb(4)] radix_less [OF va(3) vb(3)]
      radix_less [OF va(2) vb(2)] 1 datetime_lt_def
    using e1 va vb by auto
qed

lemma datetime_le_micros:
  assumes "valid_datetime a" and "valid_datetime b"
  shows "datetime_le a b = (to_micros a \<le> to_micros b)"
  unfolding datetime_le_def datetime_lt_micros [OF assms(2) assms(1)] by auto

subsection \<open>What the parser accepts\<close>

lemma two_chars_bound:
  assumes "(v, r) \<in> set (two_chars lo1 hi1 lo2 hi2 s)"
  shows "v \<le> 10 * digit_val hi1 + digit_val hi2"
proof -
  obtain a b where "in_range lo1 hi1 a" "in_range lo2 hi2 b" and v: "v = 10 * digit_val a + digit_val b"
    using assms unfolding two_chars_def by (auto split: list.splits if_splits)
  then have "digit_val a \<le> digit_val hi1" "digit_val b \<le> digit_val hi2"
    unfolding in_range_def digit_val_def by (simp_all add: diff_le_mono)
  then show ?thesis unfolding v by simp
qed

lemma one_digit_bound: "(v, r) \<in> set (one_digit s) \<Longrightarrow> v \<le> 9"
  unfolding one_digit_def is_digit_def digit_val_def
  by (auto split: list.splits if_splits)

lemma group_H_bound:
  assumes "(v, r) \<in> set (group_H s)"
  shows "v \<le> 23"
proof -
  from assms consider
      "(v, r) \<in> set (two_chars (CHR ''2'') (CHR ''2'') (CHR ''0'') (CHR ''3'') s)"
    | "(v, r) \<in> set (two_chars (CHR ''0'') (CHR ''1'') (CHR ''0'') (CHR ''9'') s)"
    | "(v, r) \<in> set (one_digit s)"
    unfolding group_H_def by auto
  then show ?thesis
  proof cases
    case 1
    from two_chars_bound [OF this] show ?thesis by (simp add: digit_val_def)
  next
    case 2
    from two_chars_bound [OF this] show ?thesis by (simp add: digit_val_def)
  next
    case 3
    from one_digit_bound [OF this] show ?thesis by simp
  qed
qed

lemma group_M_bound:
  assumes "(v, r) \<in> set (group_M s)"
  shows "v \<le> 59"
proof -
  from assms consider
      "(v, r) \<in> set (two_chars (CHR ''0'') (CHR ''5'') (CHR ''0'') (CHR ''9'') s)"
    | "(v, r) \<in> set (one_digit s)"
    unfolding group_M_def by auto
  then show ?thesis
  proof cases
    case 1
    from two_chars_bound [OF this] show ?thesis by (simp add: digit_val_def)
  next
    case 2
    from one_digit_bound [OF this] show ?thesis by simp
  qed
qed

lemma format_matches_bound:
  "(h, m, sec, r) \<in> set (format_matches s) \<Longrightarrow> h \<le> 23 \<and> m \<le> 59"
  unfolding format_matches_def
  by (auto dest: group_H_bound group_M_bound)

lemma strptime_range:
  assumes "strptime s = Inr t"
  shows "t_hour t \<le> 23 \<and> t_minute t \<le> 59 \<and> t_second t \<le> 59 \<and> t_microsecond t = 0"
proof -
  obtain h m sec ms where ms: "format_matches s = (h, m, sec, []) # ms"
      and t: "t = \<lparr>t_hour = h, t_minute = m, t_second = sec, t_microsecond = 0\<rparr>" and "sec \<le> 59"
    using assms unfolding strptime_def by (auto split: list.splits if_splits)
  from ms have "(h, m, sec, []) \<in> set (format_matches s)" by simp
  then have "h \<le> 23 \<and> m \<le> 59" by (rule format_matches_bound)
  then show ?thesis using t \<open>sec \<le> 59\<close> by simp
qed

lemma strptime_error: "strptime s = Inl e \<Longrightarrow> e = ValueError"
  unfolding strptime_def by (auto split: list.splits if_splits)

lemma tomorrow:
  assumes "t_hour t \<le> 23" "t_minute t \<le> 59" "t_second t \<le> 59" "t_microsecond t = 0" "d < MAXORDINAL"
  shows "datetime_add (combine d t) (timedelta_days 1) = Inr (combine (d + 1) t)"
proof -
  define x where "x = t_hour t * 3600 + t_minute t * 60 + t_second t"
  have x: "x < 86400" using assms unfolding x_def by simp
  have "x div 3600 = t_hour t" unfolding x_def using assms by simp
  moreover have "x mod 3600 = t_minute t * 60 + t_second t"
  proof -
    have "x = t_hour t * 3600 + (t_minute t * 60 + t_second t)" unfolding x_def by simp
    then have "x mod 3600 = (t_minute t * 60 + t_second t) mod 3600" by (simp only: mod_mult_self3)
    then show ?thesis using assms by simp
  qed
  moreover have "x mod 60 = t_second t"
  proof -
    have "x = (t_hour t * 60 + t_minute t) * 60 + t_second t" unfolding x_def by simp
    then have "x mod 60 = t_second t mod 60" by (simp only: mod_mult_self3)
    then show ?thesis using assms by simp
  qed
  moreover have "(t_minute t * 60 + t_second t) div 60 = t_minute t" using assms by simp
  ultimately show ?thesis using assms x
    unfolding datetime_add_def Let_def timedelta_days_def combine_def x_def
    by simp
qed

lemma strptime_placeholder: "strptime ''HH:MM:SS'' = Inl ValueError"
  by code_simp

lemma strptime_1430:
  "strptime ''14:30:00'' = Inr \<lparr>t_hour = 14, t_minute = 30, t_second = 0, t_microsecond = 0\<rparr>"
  by code_simp

lemma strptime_malformed:
  "strptime ''25:99:99'' = Inl ValueError" "strptime ''noon'' = Inl ValueError"
  by code_simp+

subsection \<open>Two runs, step by step\<close>

lemma strptime_1459:
  "strptime ''14:59:00'' = Inr \<lparr>t_hour = 14, t_minute = 59, t_second = 0, t_microsecond = 0\<rparr>"
  by code_simp

lemma strftime_1430: "strftime_HMS at_1430 = ''14:30:00''"
  by (simp add: strftime_HMS_def two_digits_def digit_char_def at_1430_def)

lemma strftime_1459: "strftime_HMS at_1459 = ''14:59:00''"
  by (simp add: strftime_HMS_def two_digits_def digit_char_def at_1459_def)

lemma set_alarm_1430: "set_alarm initial ''14:30:00'' now_0900 now_0900 = armed_1430"
proof -
  have "combine (ordinal now_0900) \<lparr>t_hour = 14, t_minute = 30, t_second = 0, t_microsecond = 0\<rparr>
      = at_1430"
    unfolding combine_def now_0900_def at_1430_def by simp
  moreover have "\<not> datetime_le at_1430 now_0900"
    unfolding datetime_le_def datetime_lt_def at_1430_def now_0900_def by simp
  ultimately show ?thesis
    unfolding set_alarm_def Let_def strptime_1430 set_alarm_finish_def armed_1430_def
    by (simp add: strftime_1430 initial_def)
qed

lemma check_alarm_1430: "check_alarm armed_1430 at_1430 = ringing_1430"
  unfolding check_alarm_def ringing_1430_def armed_1430_def initial_def
  by (simp add: datetime_le_def datetime_lt_def)

lemma ringing_1459_eq:
  "ringing_1459 =
     initial\<lparr>alarm_time := Some at_1459, status_label := ''ALARM! ALARM! ALARM!'',
       alarm_triggered := True, alarm_thread := Some 0, threads := [at_1459],
       snooze_button := True, stop_button := True\<rparr>"
proof -
  have "combine (ordinal now_0900) \<lparr>t_hour = 14, t_minute = 59, t_second = 0, t_microsecond = 0\<rparr>
      = at_1459"
    unfolding combine_def now_0900_def at_1459_def by simp
  moreover have "\<not> datetime_le at_1459 now_0900"
    unfolding datetime_le_def datetime_lt_def at_1459_def now_0900_def by simp
  ultimately have "set_alarm initial ''14:59:00'' now_0900 now_0900 =
      initial\<lparr>alarm_time := Some at_1459, status_label := ''Alarm set for today at 14:59:00''\<rparr>"
    unfolding set_alarm_def Let_def strptime_1459 set_alarm_finish_def
    by (simp add: strftime_1459 initial_def)
  then show ?thesis
    unfolding ringing_1459_def check_alarm_def initial_def
    by (simp add: datetime_le_def datetime_lt_def)
qed

lemma ticks_1430:
  "ticks armed_1430 [now_0900, at_1430, now_143020, now_143020\<lparr>second := 21\<rparr>] = ringing_1430"
proof -
  have 1: "check_alarm armed_1430 now_0900 = armed_1430"
    unfolding check_alarm_def armed_1430_def initial_def
    by (simp add: now_0900_def at_1430_def)
  have 2: "check_alarm ringing_1430 now_143020 = ringing_1430"
    unfolding check_alarm_def ringing_1430_def armed_1430_def initial_def
    by (simp add: now_143020_def at_1430_def)
  have 3: "check_alarm ringing_1430 (now_143020\<lparr>second := 21\<rparr>) = ringing_1430"
    unfolding check_alarm_def ringing_1430_def armed_1430_def initial_def
    by (simp add: now_143020_def at_1430_def)
  show ?thesis by (simp add: 1 2 3 check_alarm_1430)
qed

lemma add_5_minutes_143020:
  "datetime_add now_143020 (timedelta_minutes snooze_minutes) = Inr (now_143020\<lparr>minute := 35\<rparr>)"
  unfolding datetime_add_def timedelta_minutes_def snooze_minutes_def now_143020_def
    MAXORDINAL_def Let_def
  by simp

lemma add_5_minutes_235830:
  "datetime_add now_235830 (timedelta_minutes snooze_minutes)
     = Inr \<lparr>ordinal = 740001, hour = 0, minute = 3, second = 30, microsecond = 0\<rparr>"
  unfolding datetime_add_def timedelta_minutes_def snooze_minutes_def now_235830_def
    MAXORDINAL_def Let_def
  by simp

subsection \<open>Setting the alarm\<close>

text \<open>
  Claim C1. When the text of the entry parses as a time of day and today is before
  9999-12-31, \<^verbatim>\<open>set_alarm\<close> stores today's date with that time when this is strictly
  after the clock, and tomorrow's date with that time when it is at or before the clock;
  in both cases \<open>alarm_triggered\<close> is false afterwards. Today is the date of the first
  reading of the clock, and the comparison is with the second reading.
\<close>

theorem set_alarm_today_or_tomorrow:
  assumes "strptime alarm_time_str = Inr t" and "ordinal now1 < MAXORDINAL"
  shows "alarm_time (set_alarm st alarm_time_str now1 now2) =
      Some (if datetime_lt now2 (combine (ordinal now1) t)
            then combine (ordinal now1) t
            else combine (ordinal now1 + 1) t)
    \<and> \<not> alarm_triggered (set_alarm st alarm_time_str now1 now2)"
proof -
  have ne: "alarm_time_str \<noteq> ''HH:MM:SS''"
    using assms(1) strptime_placeholder by auto
  have r: "t_hour t \<le> 23" "t_minute t \<le> 59" "t_second t \<le> 59" "t_microsecond t = 0"
    using strptime_range [OF assms(1)] by simp_all
  have tm: "datetime_add (combine (ordinal now1) t) (timedelta_days 1)
      = Inr (combine (ordinal now1 + 1) t)"
    using r assms(2) by (rule tomorrow)
  show ?thesis
    unfolding set_alarm_def Let_def set_alarm_finish_def datetime_le_def
    using ne assms(1) tm by simp
qed

theorem set_alarm_today_or_tomorrow_witness:
  "strptime ''14:30:00'' = Inr \<lparr>t_hour = 14, t_minute = 30, t_second = 0, t_microsecond = 0\<rparr>
   \<and> ordinal now_0900 < MAXORDINAL \<and> ordinal now_2000 < MAXORDINAL
   \<and> alarm_time (set_alarm initial ''14:30:00'' now_0900 now_0900) = Some at_1430
   \<and> \<not> alarm_triggered (set_alarm initial ''14:30:00'' now_0900 now_0900)
   \<and> alarm_time (set_alarm ringing_1430 ''14:30:00'' now_2000 now_2000)
        = Some (at_1430\<lparr>ordinal := 740001\<rparr>)
   \<and> \<not> alarm_triggered (set_alarm ringing_1430 ''14:30:00'' now_2000 now_2000)"
proof -
  have a: "ordinal now_0900 < MAXORDINAL" and b: "ordinal now_2000 < MAXORDINAL"
    unfolding now_0900_def now_2000_def MAXORDINAL_def by simp_all
  show ?thesis
    using a b strptime_1430
      set_alarm_today_or_tomorrow [OF strptime_1430 a, of initial now_0900]
      set_alarm_today_or_tomorrow [OF strptime_1430 b, of ringing_1430 now_2000]
    by (simp add: combine_def datetime_lt_def now_0900_def now_2000_def at_1430_def)
qed

text \<open>
  Claim C6. When the text of the entry is the placeholder \<^verbatim>\<open>HH:MM:SS\<close> or does not
  parse, \<^verbatim>\<open>set_alarm\<close> shows one message box titled \<^verbatim>\<open>Input Error\<close> and leaves
  \<open>alarm_time\<close> and \<open>alarm_triggered\<close> as they were.
\<close>

theorem set_alarm_rejects:
  assumes "alarm_time_str = ''HH:MM:SS'' \<or> strptime alarm_time_str = Inl e"
  shows "alarm_time (set_alarm st alarm_time_str now1 now2) = alarm_time st
    \<and> alarm_triggered (set_alarm st alarm_time_str now1 now2) = alarm_triggered st
    \<and> (\<exists>message. message_boxes (set_alarm st alarm_time_str now1 now2)
          = message_boxes st @ [(''Input Error'', message)])"
proof (cases "alarm_time_str = ''HH:MM:SS''")
  case True
  then show ?thesis unfolding set_alarm_def show_message_box_def by simp
next
  case False
  with assms have "strptime alarm_time_str = Inl e" by simp
  moreover from this have "e = ValueError" by (rule strptime_error)
  ultimately show ?thesis
    using False unfolding set_alarm_def set_alarm_except_def show_message_box_def by simp
qed

theorem set_alarm_rejects_witness:
  "strptime ''25:99:99'' = Inl ValueError \<and> strptime ''noon'' = Inl ValueError
   \<and> alarm_time (set_alarm armed_1430 ''HH:MM:SS'' now_0900 now_0900) = Some at_1430
   \<and> \<not> alarm_triggered (set_alarm armed_1430 ''HH:MM:SS'' now_0900 now_0900)
   \<and> alarm_time (set_alarm armed_1430 ''25:99:99'' now_0900 now_0900) = Some at_1430
   \<and> \<not> alarm_triggered (set_alarm armed_1430 ''25:99:99'' now_0900 now_0900)
   \<and> alarm_time (set_alarm armed_1430 ''noon'' now_0900 now_0900) = Some at_1430
   \<and> \<not> alarm_triggered (set_alarm armed_1430 ''noon'' now_0900 now_0900)
   \<and> length (message_boxes (set_alarm armed_1430 ''noon'' now_0900 now_0900)) = 1"
proof -
  have a: "alarm_time armed_1430 = Some at_1430" "\<not> alarm_triggered armed_1430"
      "message_boxes armed_1430 = []"
    unfolding armed_1430_def initial_def by simp_all
  have p: "''HH:MM:SS'' = ''HH:MM:SS'' \<or> strptime ''HH:MM:SS'' = Inl ValueError" by simp
  have q: "''25:99:99'' = ''HH:MM:SS'' \<or> strptime ''25:99:99'' = Inl ValueError"
    using strptime_malformed(1) by simp
  have r: "''noon'' = ''HH:MM:SS'' \<or> strptime ''noon'' = Inl ValueError"
    using strptime_malformed(2) by simp
  from set_alarm_rejects [OF p, of armed_1430 now_0900 now_0900]
    set_alarm_rejects [OF q, of armed_1430 now_0900 now_0900]
    set_alarm_rejects [OF r, of armed_1430 now_0900 now_0900]
  show ?thesis using a strptime_malformed by auto
qed

subsection \<open>The tick\<close>

text \<open>
  Claim C2. With a target set and \<open>alarm_triggered\<close> false, a tick fires the alarm
  (sets \<open>alarm_triggered\<close>, writes the status, starts a playback thread for the target
  and shows both buttons) exactly when hour and minute of the clock equal those of the
  target and the clock is at or past the target; any other tick leaves the state as it
  is.
\<close>

theorem check_alarm_armed:
  assumes "alarm_time st = Some target" and "\<not> alarm_triggered st"
  shows "check_alarm st now =
    (if hour now = hour target \<and> minute now = minute target \<and> datetime_le target now
     then st\<lparr>alarm_triggered := True, status_label := ''ALARM! ALARM! ALARM!'',
             alarm_thread := Some (length (threads st)), threads := threads st @ [target],
             snooze_button := True, stop_button := True\<rparr>
     else st)
    \<and> (ringing (check_alarm st now)
         = (hour now = hour target \<and> minute now = minute target \<and> datetime_le target now))"
  using assms unfolding check_alarm_def ringing_def by auto

theorem check_alarm_armed_witness:
  "alarm_time armed_1430 = Some at_1430 \<and> \<not> alarm_triggered armed_1430
   \<and> check_alarm armed_1430 at_1430 = ringing_1430
   \<and> ringing (check_alarm armed_1430 at_1430)
   \<and> check_alarm armed_1430 (at_1430\<lparr>minute := 29, second := 59\<rparr>) = armed_1430"
proof -
  have a: "alarm_time armed_1430 = Some at_1430" and b: "\<not> alarm_triggered armed_1430"
    unfolding armed_1430_def initial_def by simp_all
  show ?thesis
    using a b check_alarm_armed [OF a b, of at_1430]
      check_alarm_armed [OF a b, of "at_1430\<lparr>minute := 29, second := 59\<rparr>"]
    by (simp add: ringing_1430_def armed_1430_def initial_def at_1430_def datetime_le_def
          datetime_lt_def ringing_def)
qed

text \<open>
  A ringing alarm that nobody snoozes or stops goes back to idle on a tick in the same
  hour and a later minute, so on the tick that starts the next minute when the target's
  minute is below 59.
\<close>

lemma check_alarm_clears_next_minute:
  assumes "alarm_time st = Some target" and "alarm_triggered st"
    and "hour now = hour target" and "minute now = minute target + 1"
  shows "check_alarm st now =
    st\<lparr>status_label := [], snooze_button := False, stop_button := False,
       alarm_time := None, alarm_triggered := False\<rparr>"
  using assms unfolding check_alarm_def by simp

text \<open>
  For a target in minute 59 there is no later minute in the same hour, and no tick
  of a valid clock changes the ringing state.
\<close>

lemma check_alarm_minute_59:
  assumes "alarm_time st = Some target" and "alarm_triggered st"
    and "minute target = 59" and "minute now < 60"
  shows "check_alarm st now = st"
  using assms unfolding check_alarm_def by simp

text \<open>
  Claim C3. A ringing alarm that is neither snoozed nor stopped is to go back to idle
  on the tick that starts the next minute after the target. The alarm set for 14:59:00
  fires at 14:59:00 and is still ringing after the tick at 15:00:00, with its target, its
  status text and both buttons: the test for the same hour misses the minute that ends
  an hour.
\<close>

theorem minute_59_keeps_ringing:
  "alarm_time ringing_1459 = Some at_1459 \<and> ringing ringing_1459
   \<and> snooze_button ringing_1459 \<and> stop_button ringing_1459
   \<and> status_label ringing_1459 = ''ALARM! ALARM! ALARM!''
   \<and> check_alarm ringing_1459 at_1500 = ringing_1459"
  unfolding ringing_1459_eq check_alarm_def ringing_def
  by (simp add: at_1459_def at_1500_def)

lemma check_alarm_quiet:
  assumes "alarm_triggered st \<or> alarm_time st = None"
  shows "threads (check_alarm st now) = threads st
    \<and> (alarm_triggered (check_alarm st now) \<or> alarm_time (check_alarm st now) = None)"
  using assms unfolding check_alarm_def by (auto split: option.splits)

lemma ticks_quiet:
  "alarm_triggered st \<or> alarm_time st = None \<Longrightarrow> threads (ticks st nows) = threads st"
proof (induction nows arbitrary: st)
  case Nil
  then show ?case by simp
next
  case (Cons now nows)
  from check_alarm_quiet [OF Cons.prems, of now]
  have "threads (check_alarm st now) = threads st"
    and "alarm_triggered (check_alarm st now) \<or> alarm_time (check_alarm st now) = None"
    by simp_all
  with Cons.IH [of "check_alarm st now"] show ?case by simp
qed

lemma check_alarm_while_armed:
  assumes "alarm_time st = Some target" and "\<not> alarm_triggered st"
  shows "check_alarm st now = st
    \<or> (alarm_triggered (check_alarm st now) \<and> threads (check_alarm st now) = threads st @ [target])"
  using assms unfolding check_alarm_def by simp

lemma ticks_at_most_one:
  "threads (ticks st nows) = threads st
   \<or> (\<exists>target. alarm_time st = Some target \<and> \<not> alarm_triggered st
        \<and> threads (ticks st nows) = threads st @ [target])"
proof (induction nows arbitrary: st)
  case Nil
  then show ?case by simp
next
  case (Cons now nows)
  show ?case
  proof (cases "alarm_triggered st \<or> alarm_time st = None")
    case True
    from ticks_quiet [OF this, of "now # nows"] show ?thesis by (rule disjI1)
  next
    case False
    then obtain target where a: "alarm_time st = Some target" and b: "\<not> alarm_triggered st"
      by auto
    from check_alarm_while_armed [OF a b, of now] show ?thesis
    proof
      assume "check_alarm st now = st"
      with Cons.IH [of st] show ?thesis by simp
    next
      assume f: "alarm_triggered (check_alarm st now)
        \<and> threads (check_alarm st now) = threads st @ [target]"
      then have "threads (ticks (check_alarm st now) nows) = threads (check_alarm st now)"
        by (simp add: ticks_quiet)
      with f a b show ?thesis by simp
    qed
  qed
qed

text \<open>
  Claim C9. Once the alarm has fired, a tick in the target's hour and minute changes
  nothing: no thread is started, and target, flag and buttons stay. Over any run of
  ticks, from any state, at most one playback thread is started, and only for the target
  that was armed at the start of the run.
\<close>

theorem check_alarm_fires_once:
  "(alarm_time st = Some target \<and> alarm_triggered st
      \<and> hour now = hour target \<and> minute now = minute target
     \<longrightarrow> check_alarm st now = st)
   \<and> (threads (ticks st nows) = threads st
       \<or> (\<exists>target. alarm_time st = Some target \<and> \<not> alarm_triggered st
            \<and> threads (ticks st nows) = threads st @ [target]))"
proof
  show "alarm_time st = Some target \<and> alarm_triggered st
      \<and> hour now = hour target \<and> minute now = minute target
     \<longrightarrow> check_alarm st now = st"
    unfolding check_alarm_def by simp
  show "threads (ticks st nows) = threads st
       \<or> (\<exists>target. alarm_time st = Some target \<and> \<not> alarm_triggered st
            \<and> threads (ticks st nows) = threads st @ [target])"
    by (rule ticks_at_most_one)
qed

theorem check_alarm_fires_once_witness:
  "alarm_time ringing_1430 = Some at_1430 \<and> alarm_triggered ringing_1430
   \<and> hour now_143020 = hour at_1430 \<and> minute now_143020 = minute at_1430
   \<and> check_alarm ringing_1430 now_143020 = ringing_1430
   \<and> threads (ticks armed_1430 [now_0900, at_1430, now_143020, now_143020\<lparr>second := 21\<rparr>])
       = threads armed_1430 @ [at_1430]"
proof -
  have a: "alarm_time ringing_1430 = Some at_1430 \<and> alarm_triggered ringing_1430
     \<and> hour now_143020 = hour at_1430 \<and> minute now_143020 = minute at_1430"
    unfolding ringing_1430_def armed_1430_def now_143020_def at_1430_def by simp
  have b: "threads (ticks armed_1430 [now_0900, at_1430, now_143020, now_143020\<lparr>second := 21\<rparr>])
       = threads armed_1430 @ [at_1430]"
    unfolding ticks_1430 by (simp add: ringing_1430_def armed_1430_def initial_def)
  from check_alarm_fires_once [where st = ringing_1430 and target = at_1430
      and now = now_143020 and nows = "[]"] a b
  show ?thesis by simp
qed

subsection \<open>The playback thread\<close>

text \<open>
  Claim C7. When the sound file is missing, or when it is there and \<^verbatim>\<open>playsound\<close>
  raises, \<^verbatim>\<open>play_alarm_sound\<close> shows one message box and leaves \<open>alarm_time\<close> and
  \<open>alarm_triggered\<close> as they were.
\<close>

theorem play_alarm_sound_errors:
  assumes "\<not> file_exists \<or> raised = Some e"
  shows "alarm_time (play_alarm_sound st file_exists raised) = alarm_time st
    \<and> alarm_triggered (play_alarm_sound st file_exists raised) = alarm_triggered st
    \<and> (\<exists>message. message_boxes (play_alarm_sound st file_exists raised)
          = message_boxes st @ [(if file_exists then ''Audio Error'' else ''Error'', message)])"
  using assms unfolding play_alarm_sound_def show_message_box_def by auto

theorem play_alarm_sound_errors_witness:
  "alarm_time (play_alarm_sound ringing_1430 False None) = alarm_time ringing_1430
    \<and> alarm_triggered (play_alarm_sound ringing_1430 False None) = alarm_triggered ringing_1430
    \<and> (\<exists>message. message_boxes (play_alarm_sound ringing_1430 False None)
          = message_boxes ringing_1430 @ [(''Error'', message)])
    \<and> alarm_time (play_alarm_sound ringing_1430 True (Some ''no device'')) = alarm_time ringing_1430
    \<and> alarm_triggered (play_alarm_sound ringing_1430 True (Some ''no device''))
          = alarm_triggered ringing_1430
    \<and> (\<exists>message. message_boxes (play_alarm_sound ringing_1430 True (Some ''no device''))
          = message_boxes ringing_1430 @ [(''Audio Error'', message)])"
  using play_alarm_sound_errors [where file_exists = False and raised = None and st = ringing_1430]
    play_alarm_sound_errors [where file_exists = True and raised = "Some ''no device''"
      and e = "''no device''" and st = ringing_1430]
  by simp

subsection \<open>Stop and snooze\<close>

text \<open>
  Claim C5. \<^verbatim>\<open>stop_alarm\<close> in the ringing state clears the target, resets
  \<open>alarm_triggered\<close> and hides both buttons: the alarm is idle.
\<close>

theorem stop_alarm_ringing:
  assumes "ringing st"
  shows "alarm_time (stop_alarm st) = None \<and> \<not> alarm_triggered (stop_alarm st)
    \<and> \<not> snooze_button (stop_alarm st) \<and> \<not> stop_button (stop_alarm st)
    \<and> idle (stop_alarm st)"
  unfolding stop_alarm_def show_message_box_def idle_def by simp

theorem stop_alarm_ringing_witness:
  "ringing ringing_1430 \<and> alarm_time (stop_alarm ringing_1430) = None
    \<and> \<not> alarm_triggered (stop_alarm ringing_1430)
    \<and> \<not> snooze_button (stop_alarm ringing_1430) \<and> \<not> stop_button (stop_alarm ringing_1430)
    \<and> idle (stop_alarm ringing_1430)"
proof -
  have r: "ringing ringing_1430"
    unfolding ringing_def ringing_1430_def armed_1430_def by simp
  show ?thesis using r stop_alarm_ringing [OF r] by simp
qed

lemma snooze_result:
  assumes "valid_datetime now" and "ordinal now < MAXORDINAL"
  shows "\<exists>t. alarm_time (snooze st now) = Some t
      \<and> to_micros t = to_micros now + snooze_minutes * 60 * 1000000
      \<and> valid_datetime t
      \<and> \<not> alarm_triggered (snooze st now)
      \<and> \<not> snooze_button (snooze st now) \<and> \<not> stop_button (snooze st now)
      \<and> message_boxes (snooze st now) = message_boxes st
      \<and> callback_errors (snooze st now) = callback_errors st"
proof -
  obtain t where t: "datetime_add now (timedelta_minutes snooze_minutes) = Inr t"
    using datetime_add_ok [OF assms] by blast
  have "to_micros t = to_micros now + snooze_minutes * 60 * 1000000"
    using datetime_add_micros [OF t] unfolding timedelta_minutes_def snooze_minutes_def by simp
  moreover have "valid_datetime t" using t by (rule datetime_add_valid)
  ultimately show ?thesis using t unfolding snooze_def Let_def by simp
qed

text \<open>
  Claim C4. \<^verbatim>\<open>snooze\<close> in the ringing state, at a reading of the clock before
  9999-12-31, sets the target exactly \<open>snooze_minutes\<close> minutes after that reading,
  resets \<open>alarm_triggered\<close> and hides both buttons: the alarm is armed.
\<close>

theorem snooze_ringing:
  assumes "ringing st" and "valid_datetime now" and "ordinal now < MAXORDINAL"
  shows "\<exists>t. alarm_time (snooze st now) = Some t
      \<and> to_micros t = to_micros now + snooze_minutes * 60 * 1000000
      \<and> \<not> alarm_triggered (snooze st now)
      \<and> \<not> snooze_button (snooze st now) \<and> \<not> stop_button (snooze st now)
      \<and> armed (snooze st now)"
  using snooze_result [OF assms(2,3), of st] unfolding armed_def by auto

theorem snooze_ringing_witness:
  "ringing ringing_1430 \<and> valid_datetime now_143020 \<and> ordinal now_143020 < MAXORDINAL
   \<and> alarm_time (snooze ringing_1430 now_143020) = Some (now_143020\<lparr>minute := 35\<rparr>)
   \<and> \<not> alarm_triggered (snooze ringing_1430 now_143020)
   \<and> \<not> snooze_button (snooze ringing_1430 now_143020)
   \<and> \<not> stop_button (snooze ringing_1430 now_143020)
   \<and> armed (snooze ringing_1430 now_143020)"
proof -
  have a: "ringing ringing_1430"
    unfolding ringing_def ringing_1430_def armed_1430_def by simp
  have b: "valid_datetime now_143020" and c: "ordinal now_143020 < MAXORDINAL"
    unfolding valid_datetime_def now_143020_def MAXORDINAL_def by simp_all
  have d: "alarm_time (snooze ringing_1430 now_143020) = Some (now_143020\<lparr>minute := 35\<rparr>)"
    unfolding snooze_def Let_def add_5_minutes_143020 by simp
  from snooze_ringing [OF a b c] a b c d show ?thesis by auto
qed

text \<open>
  Claim C10. \<^verbatim>\<open>snooze\<close> does not look at the state it is called in: in every state,
  idle and armed included, it sets the target five minutes after the reading of the
  clock and resets \<open>alarm_triggered\<close>, and shows no message box about a target it
  replaces.
\<close>

theorem snooze_any_state:
  assumes "valid_datetime now" and "ordinal now < MAXORDINAL"
  shows "\<exists>t. alarm_time (snooze st now) = Some t
      \<and> to_micros t = to_micros now + 5 * 60 * 1000000
      \<and> \<not> alarm_triggered (snooze st now)
      \<and> message_boxes (snooze st now) = message_boxes st"
  using snooze_result [OF assms, of st] unfolding snooze_minutes_def by auto

theorem snooze_any_state_witness:
  "valid_datetime now_235830 \<and> ordinal now_235830 < MAXORDINAL
   \<and> alarm_time (snooze initial now_235830)
       = Some \<lparr>ordinal = 740001, hour = 0, minute = 3, second = 30, microsecond = 0\<rparr>
   \<and> alarm_time (snooze armed_1430 now_235830)
       = Some \<lparr>ordinal = 740001, hour = 0, minute = 3, second = 30, microsecond = 0\<rparr>
   \<and> \<not> alarm_triggered (snooze initial now_235830)
   \<and> \<not> alarm_triggered (snooze armed_1430 now_235830)
   \<and> message_boxes (snooze armed_1430 now_235830) = message_boxes armed_1430"
proof -
  have b: "valid_datetime now_235830" and c: "ordinal now_235830 < MAXORDINAL"
    unfolding valid_datetime_def now_235830_def MAXORDINAL_def by simp_all
  have d: "alarm_time (snooze initial now_235830)
       = Some \<lparr>ordinal = 740001, hour = 0, minute = 3, second = 30, microsecond = 0\<rparr>"
    "alarm_time (snooze armed_1430 now_235830)
       = Some \<lparr>ordinal = 740001, hour = 0, minute = 3, second = 30, microsecond = 0\<rparr>"
    unfolding snooze_def Let_def add_5_minutes_235830 by simp_all
  from snooze_any_state [OF b c, of initial] snooze_any_state [OF b c, of armed_1430] b c d
  show ?thesis by auto
qed

subsection \<open>An invariant of all runs\<close>

lemma set_alarm_keeps_threads: "threads (set_alarm st s now1 now2) = threads st"
  unfolding set_alarm_def set_alarm_except_def set_alarm_finish_def show_message_box_def Let_def
  by (simp split: sum.splits exn.splits)

lemma set_alarm_triggered:
  "alarm_triggered (set_alarm st s now1 now2)
    \<Longrightarrow> alarm_triggered st \<and> alarm_time (set_alarm st s now1 now2) = alarm_time st"
  unfolding set_alarm_def set_alarm_except_def set_alarm_finish_def show_message_box_def Let_def
  by (auto split: sum.splits exn.splits if_splits)

lemma snooze_triggered:
  "alarm_triggered (snooze st now)
    \<Longrightarrow> alarm_triggered st \<and> alarm_time (snooze st now) = alarm_time st
        \<and> threads (snooze st now) = threads st"
  unfolding snooze_def Let_def by (simp split: sum.splits)

lemma check_alarm_triggered:
  assumes "alarm_triggered (check_alarm st now)"
  shows "(alarm_triggered st \<and> check_alarm st now = st)
    \<or> (\<exists>target. alarm_time (check_alarm st now) = Some target
          \<and> threads (check_alarm st now) = threads st @ [target])"
  using assms unfolding check_alarm_def by (auto split: option.splits if_splits)

text \<open>
  Claim C8. In every reachable state, when \<open>alarm_triggered\<close> is true there is a
  target, and a playback thread has been started for that target.
\<close>

theorem triggered_has_target_and_playback:
  assumes "reachable st" and "alarm_triggered st"
  shows "\<exists>target. alarm_time st = Some target \<and> target \<in> set (threads st)"
  using assms
proof (induction rule: reachable.induct)
  case start
  then show ?case by (simp add: initial_def)
next
  case (set st alarm_time_str now1 now2)
  from set_alarm_triggered [OF set.prems] set.IH show ?case
    by (simp add: set_alarm_keeps_threads)
next
  case (tick st now)
  from check_alarm_triggered [OF tick.prems] show ?case
  proof
    assume "alarm_triggered st \<and> check_alarm st now = st"
    with tick.IH show ?thesis by simp
  next
    assume "\<exists>target. alarm_time (check_alarm st now) = Some target
          \<and> threads (check_alarm st now) = threads st @ [target]"
    then show ?thesis by auto
  qed
next
  case (snoozed st now)
  from snooze_triggered [OF snoozed.prems] snoozed.IH show ?case by simp
next
  case (stopped st)
  then show ?case by (simp add: stop_alarm_def show_message_box_def)
next
  case (played st file_exists raised)
  then show ?case
    unfolding play_alarm_sound_def show_message_box_def
    by (simp split: if_splits option.splits)
qed

theorem triggered_has_target_and_playback_witness:
  "reachable (check_alarm (set_alarm initial ''14:30:00'' now_0900 now_0900) at_1430)
   \<and> alarm_triggered (check_alarm (set_alarm initial ''14:30:00'' now_0900 now_0900) at_1430)
   \<and> alarm_time (check_alarm (set_alarm initial ''14:30:00'' now_0900 now_0900) at_1430)
        = Some at_1430
   \<and> at_1430 \<in> set (threads (check_alarm (set_alarm initial ''14:30:00'' now_0900 now_0900) at_1430))"
proof -
  have a: "reachable (check_alarm (set_alarm initial ''14:30:00'' now_0900 now_0900) at_1430)"
    by (intro reachable.tick reachable.set reachable.start)
  have b: "alarm_triggered (check_alarm (set_alarm initial ''14:30:00'' now_0900 now_0900) at_1430)"
    unfolding set_alarm_1430 check_alarm_1430 by (simp add: ringing_1430_def)
  have c: "alarm_time (check_alarm (set_alarm initial ''14:30:00'' now_0900 now_0900) at_1430)
      = Some at_1430"
    unfolding set_alarm_1430 check_alarm_1430 by (simp add: ringing_1430_def armed_1430_def)
  from triggered_has_target_and_playback [OF a b] a b c show ?thesis by auto
qed

end
